theory Spec2Isabelle
  imports Complex_Main "HOL-Library.AList"
begin

section \<open>Configuration (config/settings.py)\<close>

text \<open>
  Times are the values returned by \<^verbatim>\<open>time.time()\<close>. They are modelled as exact
  reals: every function that reads the clock in the source takes the value read as an
  argument, so that nothing is assumed about how the clock behaves between two reads.
\<close>

definition MESSAGE_RATE_LIMIT :: real where
  "MESSAGE_RATE_LIMIT = 1"

definition REACTION_RATE_LIMIT :: real where
  "REACTION_RATE_LIMIT = 1 / 4"

text \<open>\<^verbatim>\<open>MAX_SESSIONS = int(os.getenv('MAX_SESSIONS', '10'))\<close>: the default value.
  \<^verbatim>\<open>settings.py\<close> also declares the message for a full registry,
  \<^verbatim>\<open>SESSION_LIMIT_MESSAGE\<close>; no function of \<^verbatim>\<open>session.py\<close> reads either.\<close>

definition MAX_SESSIONS :: nat where
  "MAX_SESSIONS = 10"

definition MAX_UPDATES_PER_MINUTE :: int where
  "MAX_UPDATES_PER_MINUTE = 60"

section \<open>RateLimiter (src/doom/session.py, lines 16-42)\<close>

text \<open>Python's \<^verbatim>\<open>int(x)\<close> on a float truncates towards zero.\<close>

definition py_int :: "real \<Rightarrow> int" where
  "py_int x = (if 0 \<le> x then \<lfloor>x\<rfloor> else \<lceil>x\<rceil>)"

text \<open>The field \<^verbatim>\<open>last_update\<close> of the limiter is named \<open>rl_last_update\<close>
  here, since the session has a field \<^verbatim>\<open>last_update\<close> of its own.\<close>

record RateLimiter =
  rl_last_update :: real
  update_count :: int
  last_minute :: int

definition RateLimiter_init :: RateLimiter where
  "RateLimiter_init = \<lparr>rl_last_update = 0, update_count = 0, last_minute = 0\<rparr>"

text \<open>\<^verbatim>\<open>can_update\<close> returns its verdict together with the limiter as the call leaves it:
  the method resets the counter in place when a later minute has begun.\<close>

definition can_update :: "real \<Rightarrow> RateLimiter \<Rightarrow> bool \<times> RateLimiter" where
  "can_update current_time rl =
     (let current_minute = py_int (current_time / 60);
          rl1 = (if current_minute > last_minute rl
                 then rl\<lparr>update_count := 0, last_minute := current_minute\<rparr>
                 else rl)
      in if update_count rl1 \<ge> MAX_UPDATES_PER_MINUTE then (False, rl1)
         else if current_time - rl_last_update rl1 < MESSAGE_RATE_LIMIT then (False, rl1)
         else (True, rl1))"

definition record_update :: "real \<Rightarrow> RateLimiter \<Rightarrow> RateLimiter" where
  "record_update now rl = rl\<lparr>rl_last_update := now, update_count := update_count rl + 1\<rparr>"

text \<open>A sequence of calls on one limiter, each with the time its clock read returns.\<close>

datatype call = CanUpdate real | RecordUpdate real

fun run_calls :: "call list \<Rightarrow> RateLimiter \<Rightarrow> RateLimiter" where
  "run_calls [] rl = rl"
| "run_calls (CanUpdate t # cs) rl = run_calls cs (snd (can_update t rl))"
| "run_calls (RecordUpdate t # cs) rl = run_calls cs (record_update t rl)"

text \<open>The calling discipline of \<^verbatim>\<open>GameSession.update\<close>: a \<^verbatim>\<open>record_update\<close> only
  directly after a \<^verbatim>\<open>can_update\<close> that returned \<^verbatim>\<open>True\<close> at the same time.\<close>

fun protocol_ok :: "call list \<Rightarrow> RateLimiter \<Rightarrow> bool" where
  "protocol_ok [] rl = True"
| "protocol_ok (CanUpdate t # RecordUpdate t' # cs) rl =
     (t' = t \<and> fst (can_update t rl) \<and>
      protocol_ok cs (record_update t' (snd (can_update t rl))))"
| "protocol_ok (CanUpdate t # cs) rl = protocol_ok cs (snd (can_update t rl))"
| "protocol_ok (RecordUpdate t # cs) rl = False"

fun recorded :: "call list \<Rightarrow> real list" where
  "recorded [] = []"
| "recorded (CanUpdate t # cs) = recorded cs"
| "recorded (RecordUpdate t # cs) = t # recorded cs"

definition in_bucket :: "int \<Rightarrow> real \<Rightarrow> bool" where
  "in_bucket k t = (py_int (t / 60) = k)"

definition pairs :: "real list \<Rightarrow> call list" where
  "pairs ts = concat (map (\<lambda>t. [CanUpdate t, RecordUpdate t]) ts)"

definition spacing1 :: "real \<Rightarrow> nat \<Rightarrow> real list" where
  "spacing1 t0 n = map (\<lambda>i. t0 + real i) [0..<n]"

fun spaced :: "real \<Rightarrow> real list \<Rightarrow> bool" where
  "spaced l [] = True"
| "spaced l (t # ts) = (l + 1 \<le> t \<and> spaced t ts)"

section \<open>GameState (src/doom/engine.py, lines 15-30)\<close>

text \<open>The fields have the types of their annotations. A dictionary is an association
  list from keys to Python values; the values a snapshot holds are integers and a
  tuple of three floats.\<close>

datatype pyval = PyInt int | PyFloat real | PyTuple "pyval list"

datatype error = TypeError | IllTyped

record GameState =
  health :: int
  armor :: int
  ammo :: int
  weapon :: int
  position :: "real \<times> real \<times> real"
  level :: int
  score :: int

definition GameState_init :: GameState where
  "GameState_init =
     \<lparr>health = 100, armor = 0, ammo = 50, weapon = 2, position = (0, 0, 0),
      level = 1, score = 0\<rparr>"

text \<open>\<^verbatim>\<open>to_dict\<close> is \<^verbatim>\<open>dataclasses.asdict\<close>: one entry per field, in the order of
  the fields, the tuple rebuilt element by element.\<close>

definition to_dict :: "GameState \<Rightarrow> (string \<times> pyval) list" where
  "to_dict s =
     (case position s of (x, y, a) \<Rightarrow>
        [(''health'', PyInt (health s)),
         (''armor'', PyInt (armor s)),
         (''ammo'', PyInt (ammo s)),
         (''weapon'', PyInt (weapon s)),
         (''position'', PyTuple [PyFloat x, PyFloat y, PyFloat a]),
         (''level'', PyInt (level s)),
         (''score'', PyInt (score s))])"

definition field_names :: "string list" where
  "field_names =
     [''health'', ''armor'', ''ammo'', ''weapon'', ''position'', ''level'', ''score'']"

definition int_arg :: "(string \<times> pyval) list \<Rightarrow> string \<Rightarrow> int \<Rightarrow> int option" where
  "int_arg data k d =
     (case map_of data k of
        None \<Rightarrow> Some d
      | Some (PyInt n) \<Rightarrow> Some n
      | Some _ \<Rightarrow> None)"

definition position_arg :: "(string \<times> pyval) list \<Rightarrow> (real \<times> real \<times> real) option" where
  "position_arg data =
     (case map_of data ''position'' of
        None \<Rightarrow> Some (0, 0, 0)
      | Some (PyTuple [PyFloat x, PyFloat y, PyFloat a]) \<Rightarrow> Some (x, y, a)
      | Some _ \<Rightarrow> None)"

text \<open>\<^verbatim>\<open>from_dict\<close> is \<^verbatim>\<open>cls(**data)\<close>: a key that is no field raises
  \<^verbatim>\<open>TypeError\<close>, a missing key takes the field's default. Python stores whatever
  value a key holds; a value that is not of the field's annotated type has no place in
  the typed record and is reported as \<open>IllTyped\<close>.\<close>

definition from_dict :: "(string \<times> pyval) list \<Rightarrow> error + GameState" where
  "from_dict data =
     (if \<not> list_all (List.member field_names) (map fst data) then Inl TypeError
      else
        case
          Option.bind (int_arg data ''health'' 100) (\<lambda>h.
          Option.bind (int_arg data ''armor'' 0) (\<lambda>ar.
          Option.bind (int_arg data ''ammo'' 50) (\<lambda>am.
          Option.bind (int_arg data ''weapon'' 2) (\<lambda>w.
          Option.bind (position_arg data) (\<lambda>p.
          Option.bind (int_arg data ''level'' 1) (\<lambda>l.
          Option.bind (int_arg data ''score'' 0) (\<lambda>sc.
            Some \<lparr>health = h, armor = ar, ammo = am, weapon = w, position = p,
                  level = l, score = sc\<rparr>)))))))
        of None \<Rightarrow> Inl IllTyped | Some s \<Rightarrow> Inr s)"

section \<open>DoomEngine (src/doom/engine.py, lines 32-172)\<close>

text \<open>The game library (\<^verbatim>\<open>python_doom\<close>) and the image library behind the renderer
  are not code of the repository. What they compute is a parameter of the model: a
  record of functions over the library's game object, of any type \<open>'g\<close>. Their calls
  are taken to return normally; the source has no \<^verbatim>\<open>raise\<close> and no handler of its
  own.\<close>

datatype GameVariable = HEALTH | ARMOR | AMMO | WEAPON

type_synonym frame = "nat list list"

record FrameBuffer =
  width :: int
  height :: int

record 'g doom_lib =
  new_DoomGame :: 'g
  setup_calls :: "string \<Rightarrow> 'g \<Rightarrow> 'g"
  game_init :: "'g \<Rightarrow> 'g"
  new_episode :: "'g \<Rightarrow> 'g"
  get_game_variable :: "'g \<Rightarrow> GameVariable \<Rightarrow> int"
  screen_buffer :: "'g \<Rightarrow> frame"
  make_action :: "int list \<Rightarrow> 'g \<Rightarrow> 'g"
  game_close :: "'g \<Rightarrow> 'g"
  frame_to_ascii :: "FrameBuffer \<Rightarrow> frame \<Rightarrow> string"
  add_status_bar :: "FrameBuffer \<Rightarrow> string \<Rightarrow> int \<Rightarrow> int \<Rightarrow> int \<Rightarrow> int \<Rightarrow> string"

record 'g DoomEngine =
  wad_path :: string
  game_state :: GameState
  frame_buffer :: "frame option"
  initialized :: bool
  game :: 'g

text \<open>\<open>setup_calls\<close> stands for the configuration calls of lines 44-64, made on the
  game object with the path of the WAD file.\<close>

definition setup_game :: "'g doom_lib \<Rightarrow> 'g DoomEngine \<Rightarrow> 'g DoomEngine" where
  "setup_game lib e = e\<lparr>game := setup_calls lib (wad_path e) (game e)\<rparr>"

definition DoomEngine_init :: "'g doom_lib \<Rightarrow> string option \<Rightarrow> 'g DoomEngine" where
  "DoomEngine_init lib wad =
     setup_game lib
       \<lparr>wad_path = (case wad of
                      None \<Rightarrow> ''assets/doom1.wad''
                    | Some p \<Rightarrow> if p = [] then ''assets/doom1.wad'' else p),
        game_state = GameState_init,
        frame_buffer = None,
        initialized = False,
        game = new_DoomGame lib\<rparr>"

definition initialize :: "'g doom_lib \<Rightarrow> 'g DoomEngine \<Rightarrow> 'g DoomEngine" where
  "initialize lib e =
     (if initialized e then e
      else e\<lparr>game := new_episode lib (game_init lib (game e)), initialized := True\<rparr>)"

definition DoomEngine_update :: "'g doom_lib \<Rightarrow> real \<Rightarrow> 'g DoomEngine \<Rightarrow> 'g DoomEngine" where
  "DoomEngine_update lib delta_time e =
     (let e1 = (if \<not> initialized e then initialize lib e else e);
          g = game e1
      in e1\<lparr>game_state := (game_state e1)
               \<lparr>health := get_game_variable lib g HEALTH,
                armor := get_game_variable lib g ARMOR,
                ammo := get_game_variable lib g AMMO,
                weapon := get_game_variable lib g WEAPON\<rparr>,
             frame_buffer := Some (screen_buffer lib g)\<rparr>)"

definition move_forward :: "'g doom_lib \<Rightarrow> 'g DoomEngine \<Rightarrow> 'g DoomEngine" where
  "move_forward lib e = e\<lparr>game := make_action lib [1, 0, 0, 0, 0, 0] (game e)\<rparr>"

definition move_backward :: "'g doom_lib \<Rightarrow> 'g DoomEngine \<Rightarrow> 'g DoomEngine" where
  "move_backward lib e = e\<lparr>game := make_action lib [0, 1, 0, 0, 0, 0] (game e)\<rparr>"

definition turn_left :: "'g doom_lib \<Rightarrow> 'g DoomEngine \<Rightarrow> 'g DoomEngine" where
  "turn_left lib e = e\<lparr>game := make_action lib [0, 0, 1, 0, 0, 0] (game e)\<rparr>"

definition turn_right :: "'g doom_lib \<Rightarrow> 'g DoomEngine \<Rightarrow> 'g DoomEngine" where
  "turn_right lib e = e\<lparr>game := make_action lib [0, 0, 0, 1, 0, 0] (game e)\<rparr>"

definition shoot :: "'g doom_lib \<Rightarrow> 'g DoomEngine \<Rightarrow> 'g DoomEngine" where
  "shoot lib e =
     (if ammo (game_state e) > 0
      then e\<lparr>game := make_action lib [0, 0, 0, 0, 1, 0] (game e)\<rparr>
      else e)"

definition use_object :: "'g doom_lib \<Rightarrow> 'g DoomEngine \<Rightarrow> 'g DoomEngine" where
  "use_object lib e = e\<lparr>game := make_action lib [0, 0, 0, 0, 0, 1] (game e)\<rparr>"

definition switch_weapon :: "'g doom_lib \<Rightarrow> 'g DoomEngine \<Rightarrow> 'g DoomEngine" where
  "switch_weapon lib e = e"

definition DoomEngine_handle_input ::
  "'g doom_lib \<Rightarrow> string \<Rightarrow> 'g DoomEngine \<Rightarrow> 'g DoomEngine" where
  "DoomEngine_handle_input lib action e =
     (let e1 = (if \<not> initialized e then initialize lib e else e);
          actions =
            [(''forward'', move_forward lib),
             (''backward'', move_backward lib),
             (''left'', turn_left lib),
             (''right'', turn_right lib),
             (''shoot'', shoot lib),
             (''use'', use_object lib),
             (''weapon_switch'', switch_weapon lib)]
      in case map_of actions action of None \<Rightarrow> e1 | Some f \<Rightarrow> f e1)"

definition DoomEngine_get_frame :: "'g doom_lib \<Rightarrow> 'g DoomEngine \<Rightarrow> frame \<times> 'g DoomEngine" where
  "DoomEngine_get_frame lib e =
     (let e1 = (if \<not> initialized e then initialize lib e else e)
      in (case frame_buffer e1 of
            Some f \<Rightarrow> f
          | None \<Rightarrow> replicate 400 (replicate 640 0),
          e1))"

text \<open>\<^verbatim>\<open>save_state\<close> returns the snapshot; the JSON file it also writes is outside
  the state modelled here.\<close>

definition DoomEngine_save_state :: "'g DoomEngine \<Rightarrow> (string \<times> pyval) list" where
  "DoomEngine_save_state e = to_dict (game_state e)"

definition DoomEngine_load_state ::
  "(string \<times> pyval) list \<Rightarrow> 'g DoomEngine \<Rightarrow> error + 'g DoomEngine" where
  "DoomEngine_load_state state e =
     (case from_dict state of
        Inl err \<Rightarrow> Inl err
      | Inr gs \<Rightarrow> Inr (e\<lparr>game_state := gs\<rparr>))"

text \<open>The finalizer \<^verbatim>\<open>__del__\<close>: the only place where the game object is closed.\<close>

definition DoomEngine_del :: "'g doom_lib \<Rightarrow> 'g DoomEngine \<Rightarrow> 'g DoomEngine" where
  "DoomEngine_del lib e = e\<lparr>game := game_close lib (game e)\<rparr>"

section \<open>GameSession (src/doom/session.py, lines 44-116)\<close>

record 'g GameSession =
  user_id :: int
  engine :: "'g DoomEngine"
  session_frame_buffer :: FrameBuffer
  message_id :: "int option"
  channel_id :: "int option"
  last_update :: real
  active :: bool
  rate_limiter :: RateLimiter
  last_input_time :: real

definition GameSession_init :: "'g doom_lib \<Rightarrow> int \<Rightarrow> 'g GameSession" where
  "GameSession_init lib uid =
     \<lparr>user_id = uid,
      engine = DoomEngine_init lib None,
      session_frame_buffer = \<lparr>width = 60, height = 40\<rparr>,
      message_id = None,
      channel_id = None,
      last_update = 0,
      active = False,
      rate_limiter = RateLimiter_init,
      last_input_time = 0\<rparr>"

definition start :: "'g doom_lib \<Rightarrow> 'g GameSession \<Rightarrow> 'g GameSession" where
  "start lib s = s\<lparr>engine := initialize lib (engine s), active := True\<rparr>"

definition stop :: "'g GameSession \<Rightarrow> 'g GameSession" where
  "stop s = s\<lparr>active := False\<rparr>"

definition handle_input ::
  "'g doom_lib \<Rightarrow> real \<Rightarrow> string \<Rightarrow> 'g GameSession \<Rightarrow> 'g GameSession" where
  "handle_input lib current_time action s =
     (if \<not> active s then s
      else if current_time - last_input_time s < REACTION_RATE_LIMIT then s
      else s\<lparr>last_input_time := current_time,
             engine := DoomEngine_handle_input lib action (engine s)\<rparr>)"

text \<open>\<^verbatim>\<open>update\<close> reads the clock twice: \<open>t_can\<close> in \<^verbatim>\<open>can_update\<close>, \<open>t_rec\<close> in
  \<^verbatim>\<open>record_update\<close>.\<close>

definition update ::
  "'g doom_lib \<Rightarrow> real \<Rightarrow> real \<Rightarrow> real \<Rightarrow> 'g GameSession \<Rightarrow> 'g GameSession" where
  "update lib t_can t_rec delta_time s =
     (if \<not> active s then s
      else
        case can_update t_can (rate_limiter s) of
          (ok, rl) \<Rightarrow>
            if \<not> ok then s\<lparr>rate_limiter := rl\<rparr>
            else s\<lparr>engine := DoomEngine_update lib delta_time (engine s),
                   rate_limiter := record_update t_rec rl\<rparr>)"

text \<open>\<^verbatim>\<open>get_frame\<close>: the four values passed to the status bar are read from the
  snapshot that \<^verbatim>\<open>save_state\<close> returns, which holds the fields of the game
  state.\<close>

definition get_frame :: "'g doom_lib \<Rightarrow> 'g GameSession \<Rightarrow> string \<times> 'g GameSession" where
  "get_frame lib s =
     (if \<not> active s then ([], s)
      else
        case DoomEngine_get_frame lib (engine s) of
          (fr, e1) \<Rightarrow>
            (let ascii_frame = frame_to_ascii lib (session_frame_buffer s) fr;
                 gs = game_state e1
             in (add_status_bar lib (session_frame_buffer s) ascii_frame
                   (health gs) (ammo gs) (armor gs) (weapon gs),
                 s\<lparr>engine := e1\<rparr>)))"

definition save_state :: "'g GameSession \<Rightarrow> (string \<times> pyval) list" where
  "save_state s = DoomEngine_save_state (engine s)"

definition load_state ::
  "(string \<times> pyval) list \<Rightarrow> 'g GameSession \<Rightarrow> error + 'g GameSession" where
  "load_state state s =
     (case DoomEngine_load_state state (engine s) of
        Inl err \<Rightarrow> Inl err
      | Inr e1 \<Rightarrow> Inr (s\<lparr>engine := e1\<rparr>))"

text \<open>The operations a caller can issue on a session, each with the clock values it
  reads, and a run of them on one session. A \<^verbatim>\<open>load_state\<close> that raises leaves the
  session as it was.\<close>

datatype session_op =
    OpStart
  | OpStop
  | OpHandleInput real string
  | OpUpdate real real real
  | OpGetFrame
  | OpSaveState
  | OpLoadState "(string \<times> pyval) list"

fun apply_session_op :: "'g doom_lib \<Rightarrow> session_op \<Rightarrow> 'g GameSession \<Rightarrow> 'g GameSession" where
  "apply_session_op lib OpStart s = start lib s"
| "apply_session_op lib OpStop s = stop s"
| "apply_session_op lib (OpHandleInput t a) s = handle_input lib t a s"
| "apply_session_op lib (OpUpdate t_can t_rec dt) s = update lib t_can t_rec dt s"
| "apply_session_op lib OpGetFrame s = snd (get_frame lib s)"
| "apply_session_op lib OpSaveState s = s"
| "apply_session_op lib (OpLoadState d) s =
     (case load_state d s of Inl err \<Rightarrow> s | Inr s1 \<Rightarrow> s1)"

fun run_session_ops :: "'g doom_lib \<Rightarrow> session_op list \<Rightarrow> 'g GameSession \<Rightarrow> 'g GameSession" where
  "run_session_ops lib [] s = s"
| "run_session_ops lib (x # xs) s = run_session_ops lib xs (apply_session_op lib x s)"

section \<open>SessionManager (src/doom/session.py, lines 118-160)\<close>

text \<open>The registry is a Python dictionary: an association list in insertion order,
  \<open>AList.update\<close> for \<^verbatim>\<open>d[k] = v\<close> and \<open>AList.delete\<close> for \<^verbatim>\<open>del d[k]\<close>.
  Every operation returns, with the new state, the calls it made in the order it made
  them.\<close>

datatype event =
    EvStop int
  | EvStart int
  | EvPublish int
  | EvRemove int
  | EvUpdate int
  | EvSleep real

record 'g SessionManager =
  sessions :: "(int \<times> 'g GameSession) list"
  last_cleanup :: real

definition SessionManager_init :: "'g SessionManager" where
  "SessionManager_init = \<lparr>sessions = [], last_cleanup = 0\<rparr>"

definition create_session ::
  "'g doom_lib \<Rightarrow> int \<Rightarrow> 'g SessionManager
     \<Rightarrow> 'g SessionManager \<times> 'g GameSession \<times> event list" where
  "create_session lib uid m =
     (case (case map_of (sessions m) uid of
              Some old \<Rightarrow>
                (m\<lparr>sessions := AList.update uid (stop old) (sessions m)\<rparr>, [EvStop uid])
            | None \<Rightarrow> (m, []))
      of (m1, ev1) \<Rightarrow>
        (let session = start lib (GameSession_init lib uid)
         in (m1\<lparr>sessions := AList.update uid session (sessions m1)\<rparr>,
             session,
             ev1 @ [EvStart uid, EvPublish uid])))"

definition get_session :: "int \<Rightarrow> 'g SessionManager \<Rightarrow> 'g GameSession option" where
  "get_session uid m = map_of (sessions m) uid"

definition end_session :: "int \<Rightarrow> 'g SessionManager \<Rightarrow> 'g SessionManager \<times> event list" where
  "end_session uid m =
     (case map_of (sessions m) uid of
        Some s \<Rightarrow> (m\<lparr>sessions := AList.delete uid (sessions m)\<rparr>, [EvStop uid, EvRemove uid])
      | None \<Rightarrow> (m, []))"

definition is_stale :: "real \<Rightarrow> 'g GameSession \<Rightarrow> bool" where
  "is_stale current_time s = (current_time - last_update s > 300)"

fun end_sessions :: "int list \<Rightarrow> 'g SessionManager \<Rightarrow> 'g SessionManager \<times> event list" where
  "end_sessions [] m = (m, [])"
| "end_sessions (u # us) m =
     (case end_session u m of
        (m1, ev1) \<Rightarrow> (case end_sessions us m1 of (m2, ev2) \<Rightarrow> (m2, ev1 @ ev2)))"

text \<open>The update pass: \<open>clk uid\<close> gives the two clock values read while the session
  registered under \<open>uid\<close> is updated.\<close>

fun update_sessions ::
  "'g doom_lib \<Rightarrow> (int \<Rightarrow> real \<times> real) \<Rightarrow> real \<Rightarrow> (int \<times> 'g GameSession) list
     \<Rightarrow> (int \<times> 'g GameSession) list \<times> event list" where
  "update_sessions lib clk dt [] = ([], [])"
| "update_sessions lib clk dt ((uid, s) # rest) =
     (case update_sessions lib clk dt rest of
        (rest1, ev) \<Rightarrow>
          ((uid, update lib (fst (clk uid)) (snd (clk uid)) dt s) # rest1,
           [EvUpdate uid, EvSleep MESSAGE_RATE_LIMIT] @ ev))"

definition update_all ::
  "'g doom_lib \<Rightarrow> real \<Rightarrow> (int \<Rightarrow> real \<times> real) \<Rightarrow> real \<Rightarrow> 'g SessionManager
     \<Rightarrow> 'g SessionManager \<times> event list" where
  "update_all lib current_time clk delta_time m =
     (case (if current_time - last_cleanup m \<ge> 60
            then
              (let m0 = m\<lparr>last_cleanup := current_time\<rparr>;
                   inactive_users =
                     map fst (filter (\<lambda>(uid, s). is_stale current_time s) (sessions m0))
               in end_sessions inactive_users m0)
            else (m, []))
      of (m1, ev1) \<Rightarrow>
        (case update_sessions lib clk delta_time (sessions m1) of
           (ss, ev2) \<Rightarrow> (m1\<lparr>sessions := ss\<rparr>, ev1 @ ev2)))"


section \<open>A library double for concrete runs\<close>

text \<open>The game object is the list of the library calls made on it, so that a run shows
  which calls reached the library.\<close>

definition log_lib :: "(string list) doom_lib" where
  "log_lib =
     \<lparr>new_DoomGame = [],
      setup_calls = (\<lambda>wad g. g @ [''setup'']),
      game_init = (\<lambda>g. g @ [''init'']),
      new_episode = (\<lambda>g. g @ [''new_episode'']),
      get_game_variable =
        (\<lambda>g v. case v of HEALTH \<Rightarrow> 100 | ARMOR \<Rightarrow> 0 | AMMO \<Rightarrow> 50 | WEAPON \<Rightarrow> 2),
      screen_buffer = (\<lambda>g. [[0]]),
      make_action = (\<lambda>a g. g @ [''make_action'']),
      game_close = (\<lambda>g. g @ [''close'']),
      frame_to_ascii = (\<lambda>fb fr. '' ''),
      add_status_bar = (\<lambda>fb txt h am ar w. txt)\<rparr>"

definition user_session :: "int \<Rightarrow> int \<times> (string list) GameSession" where
  "user_session uid = (uid, start log_lib (GameSession_init log_lib uid))"

text \<open>Managers reached from the empty one: \<open>manager_with uids\<close> after one
  \<^verbatim>\<open>create_session\<close> per user, \<open>manager_after_sweep t uid\<close> after a tick at time
  \<open>t\<close> followed by a \<^verbatim>\<open>create_session\<close> for \<open>uid\<close>.\<close>

definition manager_with :: "int list \<Rightarrow> (string list) SessionManager" where
  "manager_with uids = fold (\<lambda>u m. fst (create_session log_lib u m)) uids SessionManager_init"

definition manager_after_sweep :: "real \<Rightarrow> int \<Rightarrow> (string list) SessionManager" where
  "manager_after_sweep t uid =
     fst (create_session log_lib uid
       (fst (update_all log_lib t (\<lambda>u. (t, t)) 1 SessionManager_init)))"

section \<open>Predicates used in the statements\<close>

definition is_update :: "event \<Rightarrow> bool" where
  "is_update e = (case e of EvUpdate u \<Rightarrow> True | _ \<Rightarrow> False)"

text \<open>The operations that test \<open>active\<close> before they do anything: the ones that may
  still arrive for a session after it was stopped.\<close>

fun late_op :: "session_op \<Rightarrow> bool" where
  "late_op (OpHandleInput t a) = True"
| "late_op (OpUpdate t_can t_rec dt) = True"
| "late_op OpGetFrame = True"
| "late_op x = False"

section \<open>Properties of the rate limiter\<close>

lemma can_update_last_update [simp]:
  "rl_last_update (snd (can_update t rl)) = rl_last_update rl"
  by (simp add: can_update_def Let_def)

lemma can_update_True_gap:
  "fst (can_update t rl) \<Longrightarrow> rl_last_update rl + 1 \<le> t"
  by (simp add: can_update_def Let_def MESSAGE_RATE_LIMIT_def split: if_splits)


lemma run_calls_CanUpdate_last_update:
  "rl_last_update (run_calls (map CanUpdate ts) rl) = rl_last_update rl"
  by (induction ts arbitrary: rl) simp_all

lemma protocol_spaced:
  "protocol_ok cs rl \<Longrightarrow> spaced (rl_last_update rl) (recorded cs)"
proof (induction cs rl rule: protocol_ok.induct)
  case (2 t t' cs rl)
  then show ?case
    using can_update_True_gap [of t rl] by (auto simp add: record_update_def)
qed simp_all

lemma spaced_mono: "spaced l ts \<Longrightarrow> l' \<le> l \<Longrightarrow> spaced l' ts"
  by (cases ts) simp_all

lemma spaced_filter: "spaced l ts \<Longrightarrow> spaced l (filter P ts)"
proof (induction ts arbitrary: l)
  case (Cons t ts)
  then have "spaced t (filter P ts)" by simp
  moreover have "l \<le> t" using Cons.prems by simp
  ultimately show ?case using Cons.prems by (auto intro: spaced_mono)
qed simp

lemma spaced_lower: "spaced l ts \<Longrightarrow> t \<in> set ts \<Longrightarrow> l + 1 \<le> t"
  by (induction ts arbitrary: l) force+

lemma spaced_rebase:
  "spaced l ts \<Longrightarrow> (\<And>t. t \<in> set ts \<Longrightarrow> a \<le> t) \<Longrightarrow> spaced (a - 1) ts"
  by (cases ts) simp_all

lemma spaced_length:
  "spaced l ts \<Longrightarrow> (\<And>t. t \<in> set ts \<Longrightarrow> t < b) \<Longrightarrow> ts \<noteq> [] \<Longrightarrow> real (length ts) < b - l"
proof (induction ts arbitrary: l)
  case (Cons t ts)
  show ?case
  proof (cases "ts = []")
    case True
    then show ?thesis using Cons.prems by force
  next
    case False
    have "real (length ts) < b - t"
      using Cons.IH [of t] Cons.prems False by simp
    then show ?thesis using Cons.prems by simp
  qed
qed simp

lemma window_bound:
  assumes "protocol_ok cs rl"
  shows "length (filter (\<lambda>t. a \<le> t \<and> t < a + 60) (recorded cs)) \<le> 60"
proof -
  let ?fs = "filter (\<lambda>t. a \<le> t \<and> t < a + 60) (recorded cs)"
  have "spaced (rl_last_update rl) ?fs"
    using assms by (intro spaced_filter protocol_spaced)
  then have sp: "spaced (a - 1) ?fs" by (rule spaced_rebase) simp
  show ?thesis
  proof (cases "?fs = []")
    case True
    then show ?thesis by simp
  next
    case False
    have "real (length ?fs) < (a + 60) - (a - 1)"
      using sp _ False by (rule spaced_length) simp
    then show ?thesis by simp
  qed
qed

lemma in_bucket_nonneg:
  "0 \<le> t \<Longrightarrow> in_bucket k t \<longleftrightarrow> (60 * real_of_int k \<le> t \<and> t < 60 * real_of_int k + 60)"
  unfolding in_bucket_def py_int_def by (simp add: floor_eq_iff field_simps)

lemma bucket_bound:
  assumes "0 \<le> rl_last_update rl" "protocol_ok cs rl"
  shows "length (filter (in_bucket k) (recorded cs)) \<le> 60"
proof -
  have "\<And>t. t \<in> set (recorded cs) \<Longrightarrow> 0 \<le> t"
    using spaced_lower [OF protocol_spaced [OF assms(2)]] assms(1) by force
  then have "filter (in_bucket k) (recorded cs) =
      filter (\<lambda>t. 60 * real_of_int k \<le> t \<and> t < 60 * real_of_int k + 60) (recorded cs)"
    by (intro filter_cong) (simp_all add: in_bucket_nonneg)
  then show ?thesis using window_bound [OF assms(2)] by simp
qed


lemma pairs_Cons [simp]: "pairs (t # ts) = CanUpdate t # RecordUpdate t # pairs ts"
  by (simp add: pairs_def)

lemma pairs_Nil [simp]: "pairs [] = []"
  by (simp add: pairs_def)

lemma pairs_same_bucket:
  "k \<le> last_minute rl \<Longrightarrow> list_all (in_bucket k) ts \<Longrightarrow>
     last_minute (run_calls (pairs ts) rl) = last_minute rl \<and>
     update_count (run_calls (pairs ts) rl) = update_count rl + int (length ts)"
proof (induction ts arbitrary: rl)
  case (Cons t ts)
  let ?rl1 = "record_update t (snd (can_update t rl))"
  have keep: "snd (can_update t rl) = rl"
    using Cons.prems by (simp add: can_update_def Let_def in_bucket_def)
  have "last_minute ?rl1 = last_minute rl" "update_count ?rl1 = update_count rl + 1"
    by (simp_all add: keep record_update_def)
  moreover have "last_minute (run_calls (pairs ts) ?rl1) = last_minute ?rl1 \<and>
     update_count (run_calls (pairs ts) ?rl1) = update_count ?rl1 + int (length ts)"
    using Cons.prems by (intro Cons.IH) (simp_all add: keep record_update_def)
  ultimately show ?case by simp
qed simp

lemma first_pair:
  "0 \<le> update_count rl \<Longrightarrow> in_bucket k t \<Longrightarrow>
     k \<le> last_minute (record_update t (snd (can_update t rl))) \<and>
     1 \<le> update_count (record_update t (snd (can_update t rl)))"
  by (simp add: can_update_def Let_def in_bucket_def record_update_def)

lemma pairs_count:
  assumes "0 \<le> update_count rl" "list_all (in_bucket k) ts" "ts \<noteq> []"
  shows "k \<le> last_minute (run_calls (pairs ts) rl) \<and>
         int (length ts) \<le> update_count (run_calls (pairs ts) rl)"
proof -
  obtain t ts' where ts: "ts = t # ts'" using assms(3) by (cases ts) auto
  let ?rl1 = "record_update t (snd (can_update t rl))"
  have b: "in_bucket k t" "list_all (in_bucket k) ts'" using assms(2) ts by simp_all
  have f: "k \<le> last_minute ?rl1" "1 \<le> update_count ?rl1"
    using first_pair [OF assms(1) b(1)] by simp_all
  have "last_minute (run_calls (pairs ts') ?rl1) = last_minute ?rl1 \<and>
     update_count (run_calls (pairs ts') ?rl1) = update_count ?rl1 + int (length ts')"
    using f(1) b(2) by (rule pairs_same_bucket)
  then show ?thesis using f ts by simp
qed

lemma full_bucket_refuses:
  "k \<le> last_minute rl \<Longrightarrow> MAX_UPDATES_PER_MINUTE \<le> update_count rl \<Longrightarrow> in_bucket k t \<Longrightarrow>
     \<not> fst (can_update t rl)"
  by (simp add: can_update_def Let_def in_bucket_def)

lemma spacing1_length [simp]: "length (spacing1 t0 n) = n"
  by (simp add: spacing1_def)

subsection \<open>C4: what \<^verbatim>\<open>can_update\<close> writes\<close>

text \<open>C4, as stated, fails: \<^verbatim>\<open>can_update\<close> is not pure. On a limiter that recorded
  three updates in minute 0, a call at time 60 resets \<open>update_count\<close> from 3 to 0 and
  moves \<open>last_minute\<close> from 0 to 1.\<close>

theorem can_update_pure_counterexample:
  "update_count (run_calls (pairs [1, 2, 3]) RateLimiter_init) = 3 \<and>
   last_minute (run_calls (pairs [1, 2, 3]) RateLimiter_init) = 0 \<and>
   update_count (snd (can_update 60 (run_calls (pairs [1, 2, 3]) RateLimiter_init))) = 0 \<and>
   last_minute (snd (can_update 60 (run_calls (pairs [1, 2, 3]) RateLimiter_init))) = 1 \<and>
   snd (can_update 60 (run_calls (pairs [1, 2, 3]) RateLimiter_init))
     \<noteq> run_calls (pairs [1, 2, 3]) RateLimiter_init"
  by code_simp

text \<open>C4, amended: \<^verbatim>\<open>can_update\<close> never writes \<open>last_update\<close>; it writes
  \<open>update_count\<close> and \<open>last_minute\<close> exactly when the current time lies in a later
  minute than the one tracked (count reset to zero, marker advanced) and leaves the
  limiter as it is otherwise; a second call at the same time changes nothing more and
  returns the same verdict. \<^verbatim>\<open>record_update\<close> is the only writer of
  \<open>last_update\<close>.\<close>

theorem can_update_frame:
  "snd (can_update now rl) =
     (if py_int (now / 60) > last_minute rl
      then rl\<lparr>update_count := 0, last_minute := py_int (now / 60)\<rparr>
      else rl) \<and>
   rl_last_update (snd (can_update now rl)) = rl_last_update rl \<and>
   can_update now (snd (can_update now rl)) = can_update now rl \<and>
   rl_last_update (record_update now rl) = now"
  by (simp add: can_update_def Let_def record_update_def)

subsection \<open>C5: what \<^verbatim>\<open>record_update\<close> writes\<close>

text \<open>C5, as stated, fails: \<^verbatim>\<open>record_update\<close> does not roll the bucket over. On a
  limiter that recorded three updates in minute 0, a call at time 120 (minute 2) leaves
  the marker at 0 and raises the count to 4; the claim has the count reset and then
  incremented to 1, and the marker advanced to 2.\<close>

theorem record_update_rollover_counterexample:
  "py_int (120 / 60) = 2 \<and>
   last_minute (run_calls (pairs [1, 2, 3]) RateLimiter_init) = 0 \<and>
   update_count (run_calls (pairs [1, 2, 3]) RateLimiter_init) = 3 \<and>
   last_minute (record_update 120 (run_calls (pairs [1, 2, 3]) RateLimiter_init)) = 0 \<and>
   update_count (record_update 120 (run_calls (pairs [1, 2, 3]) RateLimiter_init)) = 4"
  by code_simp

text \<open>C5, amended: \<^verbatim>\<open>record_update\<close> sets \<open>last_update\<close> to the current time,
  increments the count and leaves the bucket marker as it is, whatever the time. The
  roll-over is done by the \<^verbatim>\<open>can_update\<close> that precedes it: the two calls together,
  at the same time, reset the count to zero and advance the marker when the time lies
  in a later minute than the one tracked, and then stamp and increment.\<close>

theorem record_update_effect:
  "rl_last_update (record_update now rl) = now \<and>
   update_count (record_update now rl) = update_count rl + 1 \<and>
   last_minute (record_update now rl) = last_minute rl \<and>
   record_update now (snd (can_update now rl)) =
     \<lparr>rl_last_update = now,
      update_count = (if py_int (now / 60) > last_minute rl then 1 else update_count rl + 1),
      last_minute = (if py_int (now / 60) > last_minute rl then py_int (now / 60)
                     else last_minute rl)\<rparr>"
  by (simp add: can_update_def Let_def record_update_def)

subsection \<open>C7: the minimum interval\<close>

text \<open>C7: when \<^verbatim>\<open>record_update\<close> was called at \<open>now1\<close>, and \<open>now2 > now1\<close> with
  \<open>now2 - now1\<close> below \<open>MESSAGE_RATE_LIMIT\<close>, \<^verbatim>\<open>can_update\<close> at \<open>now2\<close> returns
  \<^verbatim>\<open>False\<close>; also after any number of \<^verbatim>\<open>can_update\<close> calls in between.\<close>

theorem can_update_min_interval:
  assumes "now1 < now2" and "now2 - now1 < MESSAGE_RATE_LIMIT"
  shows "\<not> fst (can_update now2 (run_calls (map CanUpdate ts) (record_update now1 rl)))"
proof -
  have "rl_last_update (run_calls (map CanUpdate ts) (record_update now1 rl)) = now1"
    by (simp add: run_calls_CanUpdate_last_update record_update_def)
  then show ?thesis
    using assms(2) by (simp add: can_update_def Let_def)
qed

theorem can_update_min_interval_witness:
  "(10 :: real) < 21 / 2 \<and> 21 / 2 - 10 < MESSAGE_RATE_LIMIT \<and>
   \<not> fst (can_update (21 / 2) (run_calls (map CanUpdate []) (record_update 10 RateLimiter_init))) \<and>
   \<not> fst (can_update (21 / 2) (record_update 10 RateLimiter_init))"
proof -
  have a: "(10 :: real) < 21 / 2" by simp
  have b: "(21 / 2 :: real) - 10 < MESSAGE_RATE_LIMIT" by (simp add: MESSAGE_RATE_LIMIT_def)
  show ?thesis
    using can_update_min_interval [OF a b, of "[]" RateLimiter_init] a b by simp
qed


subsection \<open>C6: the per-minute ceiling\<close>

text \<open>C6: under the calling discipline (\<open>protocol_ok\<close>: every \<^verbatim>\<open>record_update\<close> directly
  after a \<^verbatim>\<open>can_update\<close> that returned \<^verbatim>\<open>True\<close> at the same time), the number of
  updates recorded in any window of 60 time units, and so in any minute bucket of a
  limiter whose \<open>last_update\<close> is not negative (a new limiter has 0), is at most
  \<open>MAX_UPDATES_PER_MINUTE\<close>. And after 60 permitted pairs at 1-second spacing, all in
  minute \<open>j\<close>, a further \<^verbatim>\<open>can_update\<close> at any time of minute \<open>j\<close> returns
  \<^verbatim>\<open>False\<close>.\<close>

theorem rate_limiter_ceiling:
  "(protocol_ok cs rl \<longrightarrow>
      int (length (filter (\<lambda>t. a \<le> t \<and> t < a + 60) (recorded cs))) \<le> MAX_UPDATES_PER_MINUTE) \<and>
   (0 \<le> rl_last_update rl \<and> protocol_ok cs rl \<longrightarrow>
      int (length (filter (in_bucket k) (recorded cs))) \<le> MAX_UPDATES_PER_MINUTE) \<and>
   (0 \<le> update_count rl \<and> list_all (in_bucket j) (spacing1 t0 60) \<and>
    protocol_ok (pairs (spacing1 t0 60)) rl \<and> in_bucket j t \<longrightarrow>
      \<not> fst (can_update t (run_calls (pairs (spacing1 t0 60)) rl)))"
proof (intro conjI impI)
  assume "protocol_ok cs rl"
  then show "int (length (filter (\<lambda>t. a \<le> t \<and> t < a + 60) (recorded cs))) \<le> MAX_UPDATES_PER_MINUTE"
    using window_bound [of cs rl a] by (simp add: MAX_UPDATES_PER_MINUTE_def)
next
  assume "0 \<le> rl_last_update rl \<and> protocol_ok cs rl"
  then show "int (length (filter (in_bucket k) (recorded cs))) \<le> MAX_UPDATES_PER_MINUTE"
    using bucket_bound [of rl cs k] by (simp add: MAX_UPDATES_PER_MINUTE_def)
next
  assume h: "0 \<le> update_count rl \<and> list_all (in_bucket j) (spacing1 t0 60) \<and>
    protocol_ok (pairs (spacing1 t0 60)) rl \<and> in_bucket j t"
  have ne: "spacing1 t0 60 \<noteq> []"
    using spacing1_length [of t0 60] by (metis length_0_conv zero_neq_numeral)
  have "j \<le> last_minute (run_calls (pairs (spacing1 t0 60)) rl) \<and>
        int (length (spacing1 t0 60)) \<le> update_count (run_calls (pairs (spacing1 t0 60)) rl)"
    using h ne by (intro pairs_count) simp_all
  then show "\<not> fst (can_update t (run_calls (pairs (spacing1 t0 60)) rl))"
    using h by (intro full_bucket_refuses [of j]) (simp_all add: MAX_UPDATES_PER_MINUTE_def)
qed

theorem rate_limiter_ceiling_witness:
  "protocol_ok [CanUpdate 1, RecordUpdate 1, CanUpdate (3/2), CanUpdate 2, RecordUpdate 2] RateLimiter_init \<and>
   0 \<le> rl_last_update RateLimiter_init \<and>
   int (length (filter (\<lambda>t. 0 \<le> t \<and> t < 0 + 60)
     (recorded [CanUpdate 1, RecordUpdate 1, CanUpdate (3/2), CanUpdate 2, RecordUpdate 2]))) \<le> MAX_UPDATES_PER_MINUTE \<and>
   int (length (filter (in_bucket 0)
     (recorded [CanUpdate 1, RecordUpdate 1, CanUpdate (3/2), CanUpdate 2, RecordUpdate 2]))) \<le> MAX_UPDATES_PER_MINUTE \<and>
   0 \<le> update_count RateLimiter_init \<and>
   list_all (in_bucket 1) (spacing1 60 60) \<and>
   protocol_ok (pairs (spacing1 60 60)) RateLimiter_init \<and>
   in_bucket 1 (239 / 2) \<and>
   \<not> fst (can_update (239 / 2) (run_calls (pairs (spacing1 60 60)) RateLimiter_init))"
proof -
  have p1: "protocol_ok [CanUpdate 1, RecordUpdate 1, CanUpdate (3/2), CanUpdate 2, RecordUpdate 2] RateLimiter_init"
    by code_simp
  have l0: "0 \<le> rl_last_update RateLimiter_init" by (simp add: RateLimiter_init_def)
  have c0: "0 \<le> update_count RateLimiter_init" by (simp add: RateLimiter_init_def)
  have b1: "list_all (in_bucket 1) (spacing1 60 60)" by code_simp
  have p2: "protocol_ok (pairs (spacing1 60 60)) RateLimiter_init" by code_simp
  have b2: "in_bucket 1 (239 / 2)" by code_simp
  show ?thesis
    using rate_limiter_ceiling [where cs = "[CanUpdate 1, RecordUpdate 1, CanUpdate (3/2), CanUpdate 2, RecordUpdate 2]"
        and rl = RateLimiter_init and a = 0 and k = 0 and j = 1 and ?t0.0 = 60 and t = "239 / 2"] p1 l0 c0 b1 p2 b2
    by simp
qed

section \<open>Properties of the game state snapshot\<close>

lemma from_to_dict: "from_dict (to_dict s) = Inr s"
  by (cases "position s")
     (simp add: from_dict_def to_dict_def field_names_def int_arg_def position_arg_def)

text \<open>C9: restoring a game state from its own snapshot gives the same game state,
  field by field; through the engine, loading the snapshot that \<^verbatim>\<open>save_state\<close>
  returned installs the saved game state and leaves the engine itself as it was.\<close>

theorem snapshot_round_trip:
  "from_dict (to_dict s) = Inr s \<and>
   DoomEngine_load_state (DoomEngine_save_state e) e = Inr e \<and>
   DoomEngine_load_state (DoomEngine_save_state e) e' = Inr (e'\<lparr>game_state := game_state e\<rparr>)"
  by (simp add: DoomEngine_load_state_def DoomEngine_save_state_def from_to_dict)

section \<open>Properties of a session\<close>

lemma last_update_start [simp]: "last_update (start lib s) = last_update s"
  by (simp add: start_def)

lemma last_update_stop [simp]: "last_update (stop s) = last_update s"
  by (simp add: stop_def)

lemma last_update_update [simp]: "last_update (update lib t_can t_rec dt s) = last_update s"
  by (simp add: update_def split: prod.splits)

lemma last_update_handle_input [simp]: "last_update (handle_input lib t a s) = last_update s"
  by (simp add: handle_input_def)

lemma last_update_get_frame [simp]: "last_update (snd (get_frame lib s)) = last_update s"
  by (simp add: get_frame_def Let_def split: prod.splits)

lemma last_update_load_state:
  "load_state d s = Inr s1 \<Longrightarrow> last_update s1 = last_update s"
  by (auto simp add: load_state_def split: sum.splits)

lemma last_update_apply [simp]: "last_update (apply_session_op lib x s) = last_update s"
  by (cases x) (auto split: sum.splits dest: last_update_load_state)

lemma last_update_run [simp]: "last_update (run_session_ops lib xs s) = last_update s"
  by (induction xs arbitrary: s) simp_all

lemma inactive_late_op:
  "\<not> active s \<Longrightarrow> late_op x \<Longrightarrow> apply_session_op lib x s = s"
  by (cases x) (simp_all add: update_def handle_input_def get_frame_def)

lemma inactive_late_ops:
  "\<not> active s \<Longrightarrow> list_all late_op xs \<Longrightarrow> run_session_ops lib xs s = s"
  by (induction xs) (simp_all add: inactive_late_op)

subsection \<open>C10: \<open>last_update\<close> of a session is never written\<close>

text \<open>C10: the constructor sets \<open>last_update\<close> to 0, and neither \<^verbatim>\<open>update\<close> nor
  \<^verbatim>\<open>handle_input\<close> nor \<^verbatim>\<open>get_frame\<close> (nor any other operation of the session)
  writes it: after any run of operations on a new session it is still 0, so the
  staleness test of the idle sweep, \<open>current_time - last_update > 300\<close>, compares the
  current time with the value of the constructor.\<close>

theorem last_update_never_written:
  "last_update (GameSession_init lib uid) = 0 \<and>
   last_update (update lib t_can t_rec dt s) = last_update s \<and>
   last_update (handle_input lib t a s) = last_update s \<and>
   last_update (snd (get_frame lib s)) = last_update s \<and>
   last_update (run_session_ops lib ops (GameSession_init lib uid)) = 0 \<and>
   is_stale current_time (run_session_ops lib ops (GameSession_init lib uid))
     = (current_time > 300)"
  by (simp add: is_stale_def) (simp add: GameSession_init_def)

subsection \<open>C8: a stopped session\<close>

text \<open>C8, as stated, fails. \<^verbatim>\<open>stop\<close> does not release the engine handle: on a
  started session, whose game object has seen the calls of the set-up, \<^verbatim>\<open>init\<close> and
  \<^verbatim>\<open>new_episode\<close>, it leaves the engine as it was, still initialized, and no
  \<^verbatim>\<open>close\<close> has reached the game object. And not every later operation is a no-op:
  only \<^verbatim>\<open>update\<close>, \<^verbatim>\<open>handle_input\<close> and \<^verbatim>\<open>get_frame\<close> test \<open>active\<close>, so
  \<^verbatim>\<open>start\<close> makes the stopped session active again and \<^verbatim>\<open>load_state\<close> replaces
  its game state.\<close>

theorem stopped_session_counterexample:
  "active (start log_lib (GameSession_init log_lib 1)) \<and>
   game (engine (start log_lib (GameSession_init log_lib 1)))
     = [''setup'', ''init'', ''new_episode''] \<and>
   active (stop (start log_lib (GameSession_init log_lib 1))) = False \<and>
   initialized (engine (stop (start log_lib (GameSession_init log_lib 1)))) \<and>
   game (engine (stop (start log_lib (GameSession_init log_lib 1))))
     = [''setup'', ''init'', ''new_episode''] \<and>
   engine (stop (start log_lib (GameSession_init log_lib 1)))
     = engine (start log_lib (GameSession_init log_lib 1)) \<and>
   active (start log_lib (stop (start log_lib (GameSession_init log_lib 1)))) \<and>
   health (game_state (engine (stop (start log_lib (GameSession_init log_lib 1))))) = 100 \<and>
   health (game_state (engine (apply_session_op log_lib (OpLoadState [(''health'', PyInt 5)])
     (stop (start log_lib (GameSession_init log_lib 1)))))) = 5"
  by code_simp

text \<open>C8, amended: \<^verbatim>\<open>stop\<close> makes the session inactive, and on the stopped session
  \<^verbatim>\<open>update\<close> and \<^verbatim>\<open>handle_input\<close> return without any change to the session or
  its engine, \<^verbatim>\<open>get_frame\<close> returns the empty string and changes nothing, and so
  does every run of these three operations.\<close>

theorem stop_then_noop:
  "active (stop s) = False \<and>
   update lib t_can t_rec dt (stop s) = stop s \<and>
   handle_input lib t a (stop s) = stop s \<and>
   get_frame lib (stop s) = ([], stop s) \<and>
   (list_all late_op xs \<longrightarrow> run_session_ops lib xs (stop s) = stop s)"
proof -
  have "\<not> active (stop s)" by (simp add: stop_def)
  then have "list_all late_op xs \<longrightarrow> run_session_ops lib xs (stop s) = stop s"
    by (simp add: inactive_late_ops)
  then show ?thesis
    by (simp add: stop_def update_def handle_input_def get_frame_def)
qed

theorem stop_then_noop_witness:
  "list_all late_op [OpUpdate 5 5 1, OpHandleInput 6 ''shoot'', OpGetFrame] \<and>
   run_session_ops log_lib [OpUpdate 5 5 1, OpHandleInput 6 ''shoot'', OpGetFrame]
       (stop (start log_lib (GameSession_init log_lib 1)))
     = stop (start log_lib (GameSession_init log_lib 1)) \<and>
   get_frame log_lib (stop (start log_lib (GameSession_init log_lib 1)))
     = ([], stop (start log_lib (GameSession_init log_lib 1)))"
proof -
  have l: "list_all late_op [OpUpdate 5 5 1, OpHandleInput 6 ''shoot'', OpGetFrame]"
    by simp
  note th = stop_then_noop [of "start log_lib (GameSession_init log_lib 1)" log_lib 5 5 1 6
        "''shoot''" "[OpUpdate 5 5 1, OpHandleInput 6 ''shoot'', OpGetFrame]"]
  from th have g: "get_frame log_lib (stop (start log_lib (GameSession_init log_lib 1)))
      = ([], stop (start log_lib (GameSession_init log_lib 1)))"
    by blast
  from th l have r: "run_session_ops log_lib [OpUpdate 5 5 1, OpHandleInput 6 ''shoot'', OpGetFrame]
       (stop (start log_lib (GameSession_init log_lib 1)))
     = stop (start log_lib (GameSession_init log_lib 1))"
    by blast
  show ?thesis using l g r by blast
qed

section \<open>Properties of the session manager\<close>






lemma end_session_keys:
  "fst ` set (sessions (fst (end_session u m))) = fst ` set (sessions m) - {u}"
proof (cases "map_of (sessions m) u")
  case None
  then have "u \<notin> fst ` set (sessions m)" by (simp add: map_of_eq_None_iff)
  then show ?thesis using None by (simp add: end_session_def)
next
  case (Some s)
  have "set (map fst (AList.delete u (sessions m))) = set (map fst (sessions m)) - {u}"
    by (simp only: delete_keys set_removeAll)
  then show ?thesis using Some by (simp add: end_session_def)
qed

lemma end_sessions_Cons_fst:
  "fst (end_sessions (u # us) m) = fst (end_sessions us (fst (end_session u m)))"
  by (simp split: prod.splits)

lemma end_sessions_Cons_snd:
  "snd (end_sessions (u # us) m) =
     snd (end_session u m) @ snd (end_sessions us (fst (end_session u m)))"
  by (simp split: prod.splits)

lemma end_sessions_keys:
  "fst ` set (sessions (fst (end_sessions us m))) = fst ` set (sessions m) - set us"
proof (induction us arbitrary: m)
  case (Cons u us)
  have "fst ` set (sessions (fst (end_sessions us (fst (end_session u m)))))
      = fst ` set (sessions (fst (end_session u m))) - set us"
    by (rule Cons.IH)
  then show ?case
    by (simp only: end_sessions_Cons_fst end_session_keys) auto
qed simp

lemma end_session_no_update: "e \<in> set (snd (end_session v m)) \<Longrightarrow> \<not> is_update e"
  by (auto simp add: end_session_def is_update_def split: option.splits)

lemma end_sessions_no_update: "e \<in> set (snd (end_sessions us m)) \<Longrightarrow> \<not> is_update e"
proof (induction us arbitrary: m)
  case (Cons v us)
  then show ?case
    using end_session_no_update [of e v m]
    by (simp only: end_sessions_Cons_snd set_append) blast
qed simp

lemma end_sessions_events: "EvUpdate u \<notin> set (snd (end_sessions us m))"
  using end_sessions_no_update [of "EvUpdate u" us m] by (auto simp add: is_update_def)

lemma end_sessions_remove:
  "u \<in> set us \<Longrightarrow> u \<in> fst ` set (sessions m) \<Longrightarrow>
     EvRemove u \<in> set (snd (end_sessions us m))"
proof (induction us arbitrary: m)
  case (Cons v us)
  show ?case
  proof (cases "v = u")
    case True
    obtain s where "map_of (sessions m) u = Some s"
      using Cons.prems(2) by (metis map_of_eq_None_iff not_None_eq)
    then have "EvRemove u \<in> set (snd (end_session u m))"
      by (simp add: end_session_def)
    then show ?thesis using True
      by (simp only: end_sessions_Cons_snd set_append) simp
  next
    case False
    then have "u \<in> set us" using Cons.prems(1) by simp
    moreover have "u \<in> fst ` set (sessions (fst (end_session v m)))"
      using False Cons.prems(2) by (simp only: end_session_keys) simp
    ultimately have "EvRemove u \<in> set (snd (end_sessions us (fst (end_session v m))))"
      by (rule Cons.IH)
    then show ?thesis
      by (simp only: end_sessions_Cons_snd set_append) simp
  qed
qed simp

lemma update_sessions_events:
  "EvUpdate u \<in> set (snd (update_sessions lib clk dt ss)) \<longleftrightarrow> u \<in> fst ` set ss"
  by (induction ss) (auto split: prod.splits)

lemma update_sessions_keys:
  "map fst (fst (update_sessions lib clk dt ss)) = map fst ss"
  by (induction ss) (auto split: prod.splits)

subsection \<open>C1: the cap on the number of sessions\<close>

text \<open>C1 does not hold of the code: \<^verbatim>\<open>settings.py\<close> declares \<open>MAX_SESSIONS\<close> and the
  message for a full registry, and \<^verbatim>\<open>create_session\<close> never tests either. On a manager
  that holds \<open>MAX_SESSIONS\<close> sessions (users 1 to 10), a call for user 11, who has no
  session, returns a started session and publishes it: the registry then holds eleven
  sessions, where the claim has the call fail and the registry keep its ten.\<close>

theorem create_session_at_capacity:
  "length (sessions (manager_with [1, 2, 3, 4, 5, 6, 7, 8, 9, 10])) = MAX_SESSIONS \<and>
   map_of (sessions (manager_with [1, 2, 3, 4, 5, 6, 7, 8, 9, 10])) 11 = None \<and>
   length (sessions (fst (create_session log_lib 11 (manager_with [1, 2, 3, 4, 5, 6, 7, 8, 9, 10]))))
     = MAX_SESSIONS + 1 \<and>
   map fst (sessions (fst (create_session log_lib 11 (manager_with [1, 2, 3, 4, 5, 6, 7, 8, 9, 10]))))
     = [1, 2, 3, 4, 5, 6, 7, 8, 9, 10, 11] \<and>
   active (fst (snd (create_session log_lib 11 (manager_with [1, 2, 3, 4, 5, 6, 7, 8, 9, 10])))) \<and>
   snd (snd (create_session log_lib 11 (manager_with [1, 2, 3, 4, 5, 6, 7, 8, 9, 10])))
     = [EvStart 11, EvPublish 11]"
  by code_simp

subsection \<open>C3: one started session per user after \<^verbatim>\<open>create_session\<close>\<close>



subsection \<open>C2: the idle sweep and the update pass\<close>

text \<open>C2, as stated, fails: the sweep runs only in a tick that comes 60 time units or
  more after the last sweep. A manager swept at time 1000, in which user 1 then created
  a session (its \<open>last_update\<close> is 0), is ticked at time 1030: the session is older
  than the threshold, no sweep runs, and \<^verbatim>\<open>update\<close> is called on it.\<close>

theorem update_all_every_tick_counterexample:
  "last_cleanup (manager_after_sweep 1000 1) = 1000 \<and>
   sessions (manager_after_sweep 1000 1) = [user_session 1] \<and>
   is_stale 1030 (snd (user_session 1)) \<and>
   snd (update_all log_lib 1030 (\<lambda>u. (1030, 1030)) 1 (manager_after_sweep 1000 1))
     = [EvUpdate 1, EvSleep MESSAGE_RATE_LIMIT] \<and>
   get_session 1 (fst (update_all log_lib 1030 (\<lambda>u. (1030, 1030)) 1 (manager_after_sweep 1000 1)))
     \<noteq> None"
  by code_simp

text \<open>C2, amended: in every tick in which the sweep runs, that is, when the current time
  is 60 time units or more after \<open>last_cleanup\<close>, a session whose \<open>last_update\<close> is
  older than the idle threshold at the start of the tick is never updated in that
  tick: it is removed from the registry before the first \<^verbatim>\<open>update\<close> of the tick, and
  is absent from the registry afterwards.\<close>

theorem update_all_sweep_first:
  assumes "current_time - last_cleanup m \<ge> 60"
    and "(uid, s) \<in> set (sessions m)"
    and "is_stale current_time s"
  shows "EvUpdate uid \<notin> set (snd (update_all lib current_time clk dt m)) \<and>
         List.member
           (takeWhile (\<lambda>e. \<not> is_update e) (snd (update_all lib current_time clk dt m)))
           (EvRemove uid) \<and>
         get_session uid (fst (update_all lib current_time clk dt m)) = None"
proof -
  let ?m0 = "m\<lparr>last_cleanup := current_time\<rparr>"
  let ?us = "map fst (filter (\<lambda>(uid, s). is_stale current_time s) (sessions ?m0))"
  let ?m1 = "fst (end_sessions ?us ?m0)"
  let ?ev1 = "snd (end_sessions ?us ?m0)"
  let ?ev2 = "snd (update_sessions lib clk dt (sessions ?m1))"
  have inus: "uid \<in> set ?us" using assms(2,3) by force
  then have gone: "uid \<notin> fst ` set (sessions ?m1)"
    by (simp only: end_sessions_keys) simp
  have ev: "snd (update_all lib current_time clk dt m) = ?ev1 @ ?ev2"
    and ss: "sessions (fst (update_all lib current_time clk dt m)) =
      fst (update_sessions lib clk dt (sessions ?m1))"
    using assms(1) by (simp_all add: update_all_def Let_def split: prod.splits)
  have no: "EvUpdate uid \<notin> set (snd (update_all lib current_time clk dt m))"
    using gone by (simp add: ev end_sessions_events update_sessions_events)
  have "uid \<in> fst ` set (sessions ?m0)" using assms(2) by force
  then have rem: "EvRemove uid \<in> set ?ev1"
    using inus by (intro end_sessions_remove)
  have "takeWhile (\<lambda>e. \<not> is_update e) (?ev1 @ ?ev2) =
      ?ev1 @ takeWhile (\<lambda>e. \<not> is_update e) ?ev2"
    by (rule takeWhile_append2) (rule end_sessions_no_update)
  then have first: "List.member
      (takeWhile (\<lambda>e. \<not> is_update e) (snd (update_all lib current_time clk dt m)))
      (EvRemove uid)"
    using rem by (simp add: ev)
  have "uid \<notin> fst ` set (sessions (fst (update_all lib current_time clk dt m)))"
    using gone update_sessions_keys [of lib clk dt "sessions ?m1"]
    by (metis ss set_map)
  then have "get_session uid (fst (update_all lib current_time clk dt m)) = None"
    by (simp add: get_session_def map_of_eq_None_iff)
  then show ?thesis using no first by simp
qed

theorem update_all_sweep_first_witness:
  "1000 - last_cleanup (manager_with [1, 2]) \<ge> 60 \<and>
   user_session 1 \<in> set (sessions (manager_with [1, 2])) \<and>
   is_stale 1000 (snd (user_session 1)) \<and>
   EvUpdate 1 \<notin> set (snd (update_all log_lib 1000 (\<lambda>u. (1000, 1001)) 1 (manager_with [1, 2]))) \<and>
   get_session 1 (fst (update_all log_lib 1000 (\<lambda>u. (1000, 1001)) 1 (manager_with [1, 2]))) = None"
proof -
  have a: "1000 - last_cleanup (manager_with [1, 2]) \<ge> 60" by code_simp
  have b: "(1, snd (user_session 1)) \<in> set (sessions (manager_with [1, 2]))" by code_simp
  have c: "is_stale 1000 (snd (user_session 1))" by code_simp
  have d: "user_session 1 = (1, snd (user_session 1))" by (simp add: user_session_def)
  show ?thesis
    using update_all_sweep_first [OF a b c, of log_lib "\<lambda>u. (1000, 1001)" 1] a b c d
    by simp
qed


end
